theory Spec2Isabelle
  imports Complex_Main
begin

section \<open>Heatmap rendering: geo_activity_playground/heatmap.py\<close>

text \<open>
  A shallow embedding of \<^verbatim>\<open>render_heatmap\<close>. Python floats are modelled by the reals,
  extended by NaN and the infinities where the code divides by a quantity that can be
  zero; Python integers are \<^typ>\<open>int\<close>. An array is a list (a 2D grid a list of rows).
  The helpers of other modules (\<^verbatim>\<open>latlon_to_xy\<close>, \<^verbatim>\<open>get_tile\<close>) and matplotlib's colour map
  are parameters of the model.
\<close>

subsection \<open>Globals\<close>

definition MAX_TILE_COUNT :: int where
  "MAX_TILE_COUNT = 2000"

definition MAX_HEATMAP_SIZE :: "int \<times> int" where
  "MAX_HEATMAP_SIZE = (2160, 3840)"

definition OSM_TILE_SIZE :: int where
  "OSM_TILE_SIZE = 256"

definition OSM_MAX_ZOOM :: int where
  "OSM_MAX_ZOOM = 19"

subsection \<open>Tile rectangle and zoom\<close>

text \<open>
  \<^verbatim>\<open>latlon_to_xy(lat, lon, zoom)\<close> of \<^verbatim>\<open>core.tiles\<close> is not among the sources: the model
  takes it as a parameter, a function from latitude, longitude and zoom to fractional
  tile coordinates \<open>(x, y)\<close>.
\<close>

type_synonym projection = "real \<Rightarrow> real \<Rightarrow> int \<Rightarrow> real \<times> real"

text \<open>Python's \<^verbatim>\<open>int(x)\<close> on a float truncates towards zero.\<close>

definition py_int :: "real \<Rightarrow> int" where
  "py_int r = (if 0 \<le> r then \<lfloor>r\<rfloor> else \<lceil>r\<rceil>)"

record tile_index_rect =
  zoom :: int
  x_tile_min :: int
  x_tile_max :: int
  y_tile_min :: int
  y_tile_max :: int

text \<open>
  Lines 92-93 and 99-100: the south-west corner gives \<open>x_tile_min\<close> and \<open>y_tile_max\<close>, the
  north-east corner \<open>x_tile_max\<close> and \<open>y_tile_min\<close>.
\<close>

definition tile_rect ::
  "projection \<Rightarrow> real \<Rightarrow> real \<Rightarrow> real \<Rightarrow> real \<Rightarrow> int \<Rightarrow> tile_index_rect" where
  "tile_rect latlon_to_xy lat_min lon_min lat_max lon_max z =
     (let (xa, ya) = latlon_to_xy lat_min lon_min z;
          (xb, yb) = latlon_to_xy lat_max lon_max z
      in \<lparr>zoom = z, x_tile_min = py_int xa, x_tile_max = py_int xb,
          y_tile_min = py_int yb, y_tile_max = py_int ya\<rparr>)"

text \<open>The test that leaves the auto-zoom loop (lines 102-104).\<close>

definition within_heatmap_size :: "tile_index_rect \<Rightarrow> bool" where
  "within_heatmap_size r \<longleftrightarrow>
     (x_tile_max r - x_tile_min r + 1) * OSM_TILE_SIZE \<le> fst MAX_HEATMAP_SIZE \<and>
     (y_tile_max r - y_tile_min r + 1) * OSM_TILE_SIZE \<le> snd MAX_HEATMAP_SIZE"

text \<open>
  The loop \<^verbatim>\<open>while True\<close> of lines 98-107. It has no exit but the \<^verbatim>\<open>break\<close>, so the model
  is a partial function: \<open>None\<close> is a loop that never ends.
\<close>

partial_function (option) auto_zoom ::
  "projection \<Rightarrow> real \<Rightarrow> real \<Rightarrow> real \<Rightarrow> real \<Rightarrow> int \<Rightarrow> tile_index_rect option" where
  "auto_zoom latlon_to_xy lat_min lon_min lat_max lon_max z =
     (let r = tile_rect latlon_to_xy lat_min lon_min lat_max lon_max z
      in if within_heatmap_size r then Some r
         else auto_zoom latlon_to_xy lat_min lon_min lat_max lon_max (z - 1))"

declare auto_zoom.simps [code]

text \<open>Lines 89-109: the requested zoom, capped at 19, or the automatic one.\<close>

definition resolve ::
  "projection \<Rightarrow> real \<Rightarrow> real \<Rightarrow> real \<Rightarrow> real \<Rightarrow> int \<Rightarrow> tile_index_rect option" where
  "resolve latlon_to_xy lat_min lon_min lat_max lon_max arg_zoom =
     (if arg_zoom > -1
      then Some (tile_rect latlon_to_xy lat_min lon_min lat_max lon_max
                   (min arg_zoom OSM_MAX_ZOOM))
      else auto_zoom latlon_to_xy lat_min lon_min lat_max lon_max OSM_MAX_ZOOM)"

text \<open>
  A concrete mapping for the closed examples: the plate-carree tiling. Its \<open>x\<close> is the
  slippy-map formula, and on the equator so is its \<open>y\<close>.
\<close>

definition flat_xy :: projection where
  "flat_xy lat lon z =
     ((lon + 180) / 360 * power_int 2 z, (90 - lat) / 180 * power_int 2 z)"

text \<open>
  A point lies in the world tile when, at zoom 0, its tile coordinates are within the
  single tile of that zoom (the tile source's contract: \<open>x, y\<close> in \<open>[0, 2^zoom)\<close>; the
  upper end is allowed here).
\<close>

definition in_world_tile :: "projection \<Rightarrow> real \<Rightarrow> real \<Rightarrow> bool" where
  "in_world_tile latlon_to_xy lat lon \<longleftrightarrow>
     (let (x, y) = latlon_to_xy lat lon 0 in 0 \<le> x \<and> x \<le> 1 \<and> 0 \<le> y \<and> y \<le> 1)"

subsection \<open>Errors and numpy arithmetic\<close>

text \<open>
  \<open>ValueError\<close> and \<open>IndexError\<close> are the exceptions numpy and Python raise;
  \<open>TooManyTiles\<close> is the \<^verbatim>\<open>exit("ERROR zoom value too high, ...")\<close> of line 114;
  \<open>FetchFailed\<close> is an exception of the tile source.
\<close>

datatype error = ValueError | IndexError | TooManyTiles | FetchFailed

text \<open>A float that may be NaN or infinite: the result of a numpy division.\<close>

datatype npfloat = Float real | NaN | PosInf | NegInf

definition np_div :: "real \<Rightarrow> real \<Rightarrow> npfloat" where
  "np_div a b =
     (if b \<noteq> 0 then Float (a / b)
      else if a = 0 then NaN else if 0 < a then PosInf else NegInf)"

text \<open>\<^verbatim>\<open>np.round\<close> rounds to the nearest integer, a tie to the even one.\<close>

definition np_round :: "real \<Rightarrow> int" where
  "np_round r =
     (let f = \<lfloor>r\<rfloor>; d = r - of_int f
      in if d < 1 / 2 then f else if 1 / 2 < d then f + 1
         else if even f then f else f + 1)"

text \<open>\<^verbatim>\<open>np.min\<close> and \<^verbatim>\<open>np.max\<close> raise ValueError on an array without elements.\<close>

definition np_amin :: "real list \<Rightarrow> error + real" where
  "np_amin xs = (case xs of [] \<Rightarrow> Inl ValueError | x # r \<Rightarrow> Inr (fold min r x))"

definition np_amax :: "real list \<Rightarrow> error + real" where
  "np_amax xs = (case xs of [] \<Rightarrow> Inl ValueError | x # r \<Rightarrow> Inr (fold max r x))"

type_synonym grid = "real list list"

subsection \<open>Track points on the density grid\<close>

text \<open>
  A Python slice \<^verbatim>\<open>[a:b]\<close> of a sequence of length \<open>n\<close>: a negative bound counts from the
  end, and either bound is then clipped to \<open>0..n\<close>.
\<close>

definition py_slice_bound :: "nat \<Rightarrow> int \<Rightarrow> nat" where
  "py_slice_bound n k = nat (if k < 0 then max (k + int n) 0 else min k (int n))"

definition in_slice :: "nat \<Rightarrow> int \<Rightarrow> int \<Rightarrow> nat \<Rightarrow> bool" where
  "in_slice n a b k \<longleftrightarrow> py_slice_bound n a \<le> k \<and> k < py_slice_bound n b"

text \<open>\<^verbatim>\<open>xs[a:b] = f(xs[a:b])\<close>, elementwise.\<close>

definition map_slice :: "('a \<Rightarrow> 'a) \<Rightarrow> int \<Rightarrow> int \<Rightarrow> 'a list \<Rightarrow> 'a list" where
  "map_slice f a b xs =
     map (\<lambda>(k, x). if in_slice (length xs) a b k then f x else x) (enumerate 0 xs)"

definition sigma_pixel :: int where
  "sigma_pixel = 1"

text \<open>
  Lines 157-159, for one point with column \<open>j\<close> and row \<open>i\<close>:
  \<^verbatim>\<open>data[i - sigma_pixel : i + sigma_pixel, j - sigma_pixel : j + sigma_pixel] += 1.0\<close>.
\<close>

definition splat_at :: "grid \<Rightarrow> int \<times> int \<Rightarrow> grid" where
  "splat_at data p =
     (case p of (j, i) \<Rightarrow>
        map_slice (map_slice (\<lambda>v. v + 1) (j - sigma_pixel) (j + sigma_pixel))
          (i - sigma_pixel) (i + sigma_pixel) data)"

text \<open>
  Lines 149-154: a point's tile coordinates, relative to the rectangle's first tile, in
  pixels, rounded; the pair is (column, row).
\<close>

definition to_supertile ::
  "projection \<Rightarrow> tile_index_rect \<Rightarrow> real \<times> real \<Rightarrow> int \<times> int" where
  "to_supertile latlon_to_xy r p =
     (case p of (lat, lon) \<Rightarrow>
        (let (x, y) = latlon_to_xy lat lon (zoom r)
         in (np_round ((x - of_int (x_tile_min r)) * of_int OSM_TILE_SIZE),
             np_round ((y - of_int (y_tile_min r)) * of_int OSM_TILE_SIZE))))"

text \<open>The loop of lines 156-159 over all points.\<close>

definition fill_trackpoints :: "grid \<Rightarrow> (int \<times> int) list \<Rightarrow> grid" where
  "fill_trackpoints data xy_data = fold (\<lambda>p d. splat_at d p) xy_data data"

text \<open>A grid of \<open>h\<close> rows and \<open>w\<close> columns.\<close>

definition has_shape :: "nat \<Rightarrow> nat \<Rightarrow> 'a list list \<Rightarrow> bool" where
  "has_shape h w g \<longleftrightarrow> length g = h \<and> list_all (\<lambda>row. length row = w) g"

text \<open>Whether the window of the point \<open>p = (j, i)\<close> holds the pixel of row \<open>r\<close>, column \<open>c\<close>.\<close>

definition hits :: "nat \<Rightarrow> nat \<Rightarrow> nat \<Rightarrow> nat \<Rightarrow> int \<times> int \<Rightarrow> bool" where
  "hits h w r c p \<longleftrightarrow>
     (case p of (j, i) \<Rightarrow> in_slice h (i - 1) (i + 1) r \<and> in_slice w (j - 1) (j + 1) c)"

subsection \<open>Dynamic range: clipping and histogram equalisation\<close>

text \<open>
  Lines 161-167: the ground resolution of a pixel at the mean latitude
  (\<^verbatim>\<open>np.radians\<close> multiplies by \<open>pi / 180\<close>), and the greatest accumulation \<open>m\<close> allowed per
  pixel.
\<close>

definition res_pixel :: "real \<Rightarrow> int \<Rightarrow> real" where
  "res_pixel mean_lat z = 156543.03 * cos (mean_lat * pi / 180) / power_int 2 z"

definition max_accumulation :: "real \<Rightarrow> int \<Rightarrow> int \<Rightarrow> int" where
  "max_accumulation mean_lat z num_activities =
     np_round ((1 / 5) * res_pixel mean_lat z * of_int num_activities)"

text \<open>Line 169: \<^verbatim>\<open>data[data > m] = m\<close>.\<close>

definition clip :: "int \<Rightarrow> grid \<Rightarrow> grid" where
  "clip m data = map (map (\<lambda>v. if of_int m < v then of_int m else v)) data"

text \<open>
  \<^verbatim>\<open>np.histogram(a, bins=n)\<close> with an integer \<open>n\<close> and no range: ValueError unless
  \<open>n \<ge> 1\<close>; the \<open>n\<close> bins have the same width and span the values from \<^verbatim>\<open>a.min()\<close> to
  \<^verbatim>\<open>a.max()\<close> (from 0 to 1 when \<open>a\<close> is empty; widened by 0.5 on each side when the two
  are equal); every bin is closed on the left and open on the right but the last, which
  holds its right edge too. The result counts the values of each bin.
\<close>

definition bin_index :: "real \<Rightarrow> real \<Rightarrow> int \<Rightarrow> real \<Rightarrow> int" where
  "bin_index first_edge last_edge n v =
     (if v = last_edge then n - 1
      else \<lfloor>(v - first_edge) / (last_edge - first_edge) * of_int n\<rfloor>)"

definition outer_edges :: "real list \<Rightarrow> real \<times> real" where
  "outer_edges a =
     (case a of
        [] \<Rightarrow> (0, 1)
      | x # r \<Rightarrow>
          (let first_edge = fold min r x; last_edge = fold max r x
           in if first_edge = last_edge then (first_edge - 1 / 2, last_edge + 1 / 2)
              else (first_edge, last_edge)))"

definition np_histogram :: "real list \<Rightarrow> int \<Rightarrow> error + nat list" where
  "np_histogram a n =
     (if n < 1 then Inl ValueError
      else case outer_edges a of (first_edge, last_edge) \<Rightarrow>
        Inr (map (\<lambda>k. length (filter (\<lambda>v. bin_index first_edge last_edge n v = k) a))
               [0..n - 1]))"

text \<open>\<^verbatim>\<open>np.cumsum\<close>.\<close>

primrec cumsum_from :: "nat \<Rightarrow> nat list \<Rightarrow> nat list" where
  "cumsum_from acc [] = []"
| "cumsum_from acc (x # xs) = (acc + x) # cumsum_from (acc + x) xs"

definition np_cumsum :: "nat list \<Rightarrow> nat list" where
  "np_cumsum xs = cumsum_from 0 xs"

text \<open>\<^verbatim>\<open>xs[i]\<close> for a Python integer \<open>i\<close>.\<close>

definition py_getitem :: "'a list \<Rightarrow> int \<Rightarrow> error + 'a" where
  "py_getitem xs i =
     (let n = int (length xs); j = (if i < 0 then i + n else i)
      in if 0 \<le> j \<and> j < n then Inr (xs ! nat j) else Inl IndexError)"

text \<open>The results of a loop in order: the first exception ends it.\<close>

primrec collect :: "(error + 'a) list \<Rightarrow> error + 'a list" where
  "collect [] = Inr []"
| "collect (x # xs) =
     (case x of
        Inl e \<Rightarrow> Inl e
      | Inr v \<Rightarrow> (case collect xs of Inl e \<Rightarrow> Inl e | Inr vs \<Rightarrow> Inr (v # vs)))"

text \<open>
  Lines 172-178. The histogram has \<^verbatim>\<open>int(m + 1)\<close> bins; its cumulated sum is divided by
  \<^verbatim>\<open>data.size\<close> (a grid without pixels has no pixel to read the quotient), and every pixel
  \<open>v\<close> becomes \<^verbatim>\<open>m * data_hist[int(v)]\<close>.
\<close>

definition equalize :: "int \<Rightarrow> grid \<Rightarrow> error + grid" where
  "equalize m data =
     (case np_histogram (concat data) (m + 1) of
        Inl e \<Rightarrow> Inl e
      | Inr hist \<Rightarrow>
          (let data_hist = map (\<lambda>c. real c / real (length (concat data))) (np_cumsum hist)
           in collect (map (\<lambda>row. collect (map (\<lambda>v.
                 case py_getitem data_hist (py_int v) of
                   Inl e \<Rightarrow> Inl e
                 | Inr h \<Rightarrow> Inr (of_int m * h)) row)) data)))"

text \<open>
  The equalisation in the words of the specification, for comparison: the histogram has
  the \<open>m + 1\<close> integer bins \<open>0, ..., m\<close> (bin \<open>k\<close> counts the pixels of value \<open>k\<close>), its
  cumulated sum is divided by the number of pixels, and a pixel of value \<open>v\<close> becomes
  \<open>m * cumulative_histogram[v]\<close>.
\<close>

definition spec_histogram :: "int \<Rightarrow> real list \<Rightarrow> nat list" where
  "spec_histogram m a = map (\<lambda>k. length (filter (\<lambda>v. \<lfloor>v\<rfloor> = k) a)) [0..m]"

definition spec_equalize :: "int \<Rightarrow> grid \<Rightarrow> grid" where
  "spec_equalize m data =
     (let cumulative_histogram =
            map (\<lambda>c. real c / real (length (concat data)))
              (np_cumsum (spec_histogram m (concat data)))
      in map (map (\<lambda>v. of_int m * cumulative_histogram ! nat \<lfloor>v\<rfloor>)) data)"

subsection \<open>Smoothing\<close>

text \<open>
  \<^verbatim>\<open>gaussian_filter\<close> (lines 45-71). The kernel is the Gaussian centred at
  \<^verbatim>\<open>mu = (int(h / 2), int(w / 2))\<close>, rolled by \<^verbatim>\<open>-mu\<close> so that its peak is at index (0, 0).
  The product of the two real transforms, transformed back, is the circular convolution
  of image and kernel, and that is what the model computes, over the reals; this holds
  for an even number of columns, as in the render, where it is a multiple of 256.
  \<^verbatim>\<open>np.fft.rfft2\<close> raises ValueError on an array without elements.
\<close>

definition gaussian :: "nat \<Rightarrow> nat \<Rightarrow> real \<Rightarrow> nat \<Rightarrow> nat \<Rightarrow> real" where
  "gaussian h w sigma i j =
     1 / (2 * pi * sigma * sigma) *
     exp (- (1 / 2) * (((real i - real (h div 2)) / sigma)\<^sup>2 +
                       ((real j - real (w div 2)) / sigma)\<^sup>2))"

definition rolled_gaussian :: "nat \<Rightarrow> nat \<Rightarrow> real \<Rightarrow> nat \<Rightarrow> nat \<Rightarrow> real" where
  "rolled_gaussian h w sigma i j =
     gaussian h w sigma ((i + h div 2) mod h) ((j + w div 2) mod w)"

definition gaussian_filter :: "grid \<Rightarrow> real \<Rightarrow> error + grid" where
  "gaussian_filter img sigma =
     (let h = length img; w = (case img of [] \<Rightarrow> 0 | row # _ \<Rightarrow> length row)
      in if h = 0 \<or> w = 0 then Inl ValueError
         else Inr (map (\<lambda>i. map (\<lambda>j.
                (\<Sum>a < h. \<Sum>b < w.
                   img ! a ! b *
                   rolled_gaussian h w sigma ((i + h - a) mod h) ((j + w - b) mod w)))
              [0..<w]) [0..<h]))"

subsection \<open>Normalisation and colours\<close>

text \<open>
  Line 184: \<^verbatim>\<open>data = (data - data.min()) / (data.max() - data.min())\<close>. The minimum of a
  grid without pixels raises; the division is numpy's, with NaN for \<open>0 / 0\<close>.
\<close>

definition normalize :: "grid \<Rightarrow> error + npfloat list list" where
  "normalize data =
     (case np_amin (concat data) of
        Inl e \<Rightarrow> Inl e
      | Inr lo \<Rightarrow>
          (case np_amax (concat data) of
             Inl e \<Rightarrow> Inl e
           | Inr hi \<Rightarrow> Inr (map (map (\<lambda>x. np_div (x - lo) (hi - lo))) data)))"

type_synonym rgb = "real \<times> real \<times> real"

type_synonym rgba = "real \<times> real \<times> real \<times> real"

text \<open>
  The colour map \<^verbatim>\<open>plt.get_cmap(PLT_COLORMAP)\<close> belongs to matplotlib: a parameter of the
  model, a function from a density, which may be NaN, to a colour with four channels.
\<close>

type_synonym colormap = "npfloat \<Rightarrow> rgba"

text \<open>
  Line 190: \<^verbatim>\<open>data_color[data_color == cmap(0.0)] = 0.0\<close>. The comparison of the array of
  shape (h, w, 4) with the four values of \<^verbatim>\<open>cmap(0.0)\<close> is elementwise, the four values
  broadcast along the last axis: every channel value is compared with the background's
  value of the same channel, and the mask selects single channel values.
\<close>

definition remove_background :: "rgba \<Rightarrow> rgba \<Rightarrow> rgba" where
  "remove_background background color =
     (case background of (r0, g0, b0, a0) \<Rightarrow>
        (case color of (r, g, b, a) \<Rightarrow>
           (if r = r0 then 0 else r, if g = g0 then 0 else g,
            if b = b0 then 0 else b, if a = a0 then 0 else a)))"

text \<open>Lines 189-190.\<close>

definition colorize :: "colormap \<Rightarrow> npfloat list list \<Rightarrow> rgba list list" where
  "colorize cmap data = map (map (\<lambda>v. remove_background (cmap (Float 0)) (cmap v))) data"

text \<open>
  Lines 192-195, for one pixel: each of the channels 0, 1, 2 of the mosaic is blended with
  the colour's channel; the fourth channel of the colour is not used.
\<close>

definition composite_pixel :: "rgba \<Rightarrow> rgb \<Rightarrow> rgb" where
  "composite_pixel color pixel =
     (case color of (r, g, b, a) \<Rightarrow>
        (case pixel of (sr, sg, sb) \<Rightarrow>
           ((1 - r) * sr + r, (1 - g) * sg + g, (1 - b) * sb + b)))"

text \<open>
  The whole image. The two arrays have the same height and width in the render (the
  density grid is created with the mosaic's shape).
\<close>

definition composite :: "rgba list list \<Rightarrow> rgb list list \<Rightarrow> rgb list list" where
  "composite data_color supertile = map2 (map2 composite_pixel) data_color supertile"

definition unit_rgb :: "rgb \<Rightarrow> bool" where
  "unit_rgb p \<longleftrightarrow>
     (case p of (r, g, b) \<Rightarrow> 0 \<le> r \<and> r \<le> 1 \<and> 0 \<le> g \<and> g \<le> 1 \<and> 0 \<le> b \<and> b \<le> 1)"

definition unit_rgba :: "rgba \<Rightarrow> bool" where
  "unit_rgba p \<longleftrightarrow>
     (case p of (r, g, b, a) \<Rightarrow>
        0 \<le> r \<and> r \<le> 1 \<and> 0 \<le> g \<and> g \<le> 1 \<and> 0 \<le> b \<and> b \<le> 1 \<and> 0 \<le> a \<and> a \<le> 1)"

text \<open>
  A colour map for the closed examples: a ramp from the dark red \<open>(1/25, 0, 0)\<close> at
  density 0 to \<open>(1, 1/2, 0)\<close> at density 1, opaque; NaN gives a transparent black.
\<close>

definition ramp :: colormap where
  "ramp v =
     (case v of
        Float x \<Rightarrow> (let t = min 1 (max 0 x) in ((1 + 24 * t) / 25, t / 2, 0, 1))
      | _ \<Rightarrow> (0, 0, 0, 0))"

subsection \<open>The mosaic\<close>

text \<open>
  Lines 86-87: the bounds of the points. \<^verbatim>\<open>np.min(lat_lon_data, axis=0)\<close> raises
  ValueError when there is no point.
\<close>

definition bounds :: "(real \<times> real) list \<Rightarrow> error + real \<times> real \<times> real \<times> real" where
  "bounds lat_lon_data =
     (case np_amin (map fst lat_lon_data) of
        Inl e \<Rightarrow> Inl e
      | Inr lat_min \<Rightarrow>
     (case np_amin (map snd lat_lon_data) of
        Inl e \<Rightarrow> Inl e
      | Inr lon_min \<Rightarrow>
     (case np_amax (map fst lat_lon_data) of
        Inl e \<Rightarrow> Inl e
      | Inr lat_max \<Rightarrow>
     (case np_amax (map snd lat_lon_data) of
        Inl e \<Rightarrow> Inl e
      | Inr lon_max \<Rightarrow> Inr (lat_min, lon_min, lat_max, lon_max)))))"

text \<open>Line 111.\<close>

definition tile_count :: "tile_index_rect \<Rightarrow> int" where
  "tile_count r = (x_tile_max r - x_tile_min r + 1) * (y_tile_max r - y_tile_min r + 1)"

text \<open>
  Lines 116-122: \<^verbatim>\<open>np.zeros((h, w, 3))\<close>, a ValueError when a dimension is negative.
\<close>

definition np_zeros :: "int \<Rightarrow> int \<Rightarrow> error + rgb list list" where
  "np_zeros h w =
     (if h < 0 \<or> w < 0 then Inl ValueError
      else Inr (replicate (nat h) (replicate (nat w) (0, 0, 0))))"

text \<open>
  \<^verbatim>\<open>get_tile(zoom, x, y)\<close> of \<^verbatim>\<open>core.tiles\<close> is a parameter: it gives the image of a tile, as
  rows of pixels of channel bytes, or raises (\<open>None\<close>).
\<close>

type_synonym tile = "nat list list list"

type_synonym tile_source = "int \<Rightarrow> int \<Rightarrow> int \<Rightarrow> tile option"

text \<open>
  An axis of the assigned value must have the length of the target's axis, or length 1,
  which numpy repeats; otherwise the assignment raises ValueError (\<open>None\<close> here).
\<close>

definition broadcast :: "nat \<Rightarrow> 'a list \<Rightarrow> 'a list option" where
  "broadcast n xs =
     (if length xs = n then Some xs
      else if length xs = 1 then Some (replicate n (xs ! 0)) else None)"

text \<open>
  Lines 129 and 138: \<^verbatim>\<open>(np.array(tile) / 255)[:, :, :3]\<close>, as assigned to a block of
  256 by 256 pixels of three channels.
\<close>

definition tile_pixel :: "nat list \<Rightarrow> rgb option" where
  "tile_pixel channels =
     (case broadcast 3 (take 3 channels) of
        None \<Rightarrow> None
      | Some c \<Rightarrow> Some (real (c ! 0) / 255, real (c ! 1) / 255, real (c ! 2) / 255))"

definition tile_row :: "nat list list \<Rightarrow> rgb list option" where
  "tile_row row =
     (case those (map tile_pixel row) of
        None \<Rightarrow> None
      | Some pixels \<Rightarrow> broadcast (nat OSM_TILE_SIZE) pixels)"

definition tile_block :: "tile \<Rightarrow> rgb list list option" where
  "tile_block t =
     (case those (map tile_row t) of
        None \<Rightarrow> None
      | Some rows \<Rightarrow> broadcast (nat OSM_TILE_SIZE) rows)"

text \<open>
  Lines 134-138: the block of a tile, written at the rows from \<open>i * 256\<close> and the columns
  from \<open>j * 256\<close>.
\<close>

definition place :: "nat \<Rightarrow> nat \<Rightarrow> rgb list list \<Rightarrow> rgb list list \<Rightarrow> rgb list list" where
  "place i j block supertile =
     (let n = nat OSM_TILE_SIZE
      in map (\<lambda>(r, row).
           if i * n \<le> r \<and> r < (i + 1) * n
           then map (\<lambda>(c, p).
                  if j * n \<le> c \<and> c < (j + 1) * n
                  then block ! (r - i * n) ! (c - j * n) else p)
                (enumerate 0 row)
           else row)
         (enumerate 0 supertile))"

text \<open>
  The two loops of lines 125-138 over the tiles \<open>(x, y)\<close> still to fetch. The result is
  the list of the calls of \<^verbatim>\<open>get_tile\<close>, in order, with the mosaic or the exception that
  ended the loops.
\<close>

fun fetch_tiles ::
  "tile_source \<Rightarrow> tile_index_rect \<Rightarrow> (int \<times> int) list \<Rightarrow> rgb list list \<Rightarrow>
   (int \<times> int \<times> int) list \<times> (error + rgb list list)" where
  "fetch_tiles get_tile r [] supertile = ([], Inr supertile)"
| "fetch_tiles get_tile r ((x, y) # rest) supertile =
     (case get_tile (zoom r) x y of
        None \<Rightarrow> ([(zoom r, x, y)], Inl FetchFailed)
      | Some t \<Rightarrow>
          (case tile_block t of
             None \<Rightarrow> ([(zoom r, x, y)], Inl ValueError)
           | Some block \<Rightarrow>
               (case fetch_tiles get_tile r rest
                       (place (nat (y - y_tile_min r)) (nat (x - x_tile_min r)) block supertile)
                of (calls, res) \<Rightarrow> ((zoom r, x, y) # calls, res))))"

text \<open>Lines 140-142: to grayscale, inverted, on three channels.\<close>

definition base_raster :: "rgb list list \<Rightarrow> rgb list list" where
  "base_raster supertile =
     map (map (\<lambda>(r, g, b).
        (let s = 1 - (r * 0.2126 + g * 0.7152 + b * 0.0722) in (s, s, s)))) supertile"

subsection \<open>The render\<close>

text \<open>
  Lines 145-197, on the mosaic: the density of the points, clipped, equalised, smoothed
  and normalised, then coloured and blended with the mosaic. \<^verbatim>\<open>np.mean\<close> of no value is
  NaN, and \<^verbatim>\<open>int(m + 1)\<close> would raise ValueError on it.
\<close>

definition overlay ::
  "projection \<Rightarrow> colormap \<Rightarrow> (real \<times> real) list \<Rightarrow> int \<Rightarrow> tile_index_rect \<Rightarrow>
   rgb list list \<Rightarrow> error + rgb list list" where
  "overlay latlon_to_xy cmap lat_lon_data num_activities r supertile =
     (let data = map (map (\<lambda>p. 0)) supertile;
          xy_data = map (to_supertile latlon_to_xy r) lat_lon_data;
          data = fill_trackpoints data xy_data
      in case np_div (sum_list (map fst lat_lon_data)) (real (length lat_lon_data)) of
           Float mean_lat \<Rightarrow>
             (let m = max_accumulation mean_lat (zoom r) num_activities
              in case equalize m (clip m data) of
                   Inl e \<Rightarrow> Inl e
                 | Inr data \<Rightarrow>
                     (case gaussian_filter data (of_int sigma_pixel) of
                        Inl e \<Rightarrow> Inl e
                      | Inr data \<Rightarrow>
                          (case normalize data of
                             Inl e \<Rightarrow> Inl e
                           | Inr data \<Rightarrow> Inr (composite (colorize cmap data) supertile))))
         | _ \<Rightarrow> Inl ValueError)"

text \<open>Lines 116-197: what the render does once the tile count is accepted.\<close>

definition render_tiles ::
  "projection \<Rightarrow> tile_source \<Rightarrow> colormap \<Rightarrow> (real \<times> real) list \<Rightarrow> int \<Rightarrow>
   tile_index_rect \<Rightarrow> (int \<times> int \<times> int) list \<times> (error + rgb list list)" where
  "render_tiles latlon_to_xy get_tile cmap lat_lon_data num_activities r =
     (case np_zeros ((y_tile_max r - y_tile_min r + 1) * OSM_TILE_SIZE)
                    ((x_tile_max r - x_tile_min r + 1) * OSM_TILE_SIZE) of
        Inl e \<Rightarrow> ([], Inl e)
      | Inr zeros \<Rightarrow>
          (case fetch_tiles get_tile r
                  (List.product [x_tile_min r..x_tile_max r] [y_tile_min r..y_tile_max r])
                  zeros of
             (calls, Inl e) \<Rightarrow> (calls, Inl e)
           | (calls, Inr supertile) \<Rightarrow>
               (calls, overlay latlon_to_xy cmap lat_lon_data num_activities r
                         (base_raster supertile))))"

text \<open>
  \<^verbatim>\<open>render_heatmap\<close>. The result is \<open>None\<close> when the zoom loop does not end; otherwise the
  calls of \<^verbatim>\<open>get_tile\<close> made, with the image returned or the exception raised.
\<close>

definition render_heatmap ::
  "projection \<Rightarrow> tile_source \<Rightarrow> colormap \<Rightarrow> (real \<times> real) list \<Rightarrow> int \<Rightarrow> int \<Rightarrow>
   ((int \<times> int \<times> int) list \<times> (error + rgb list list)) option" where
  "render_heatmap latlon_to_xy get_tile cmap lat_lon_data num_activities arg_zoom =
     (case bounds lat_lon_data of
        Inl e \<Rightarrow> Some ([], Inl e)
      | Inr (lat_min, lon_min, lat_max, lon_max) \<Rightarrow>
          (case resolve latlon_to_xy lat_min lon_min lat_max lon_max arg_zoom of
             None \<Rightarrow> None
           | Some r \<Rightarrow>
               if tile_count r > MAX_TILE_COUNT then Some ([], Inl TooManyTiles)
               else Some (render_tiles latlon_to_xy get_tile cmap lat_lon_data
                            num_activities r)))"

section \<open>Properties\<close>

subsection \<open>The zoom search\<close>

lemma zoom_tile_rect [simp]: "zoom (tile_rect P a b c d z) = z"
  by (simp add: tile_rect_def split: prod.splits)

lemma auto_zoom_here:
  "within_heatmap_size (tile_rect P a b c d z) \<Longrightarrow>
   auto_zoom P a b c d z = Some (tile_rect P a b c d z)"
  by (subst auto_zoom.simps) simp

lemma auto_zoom_down:
  "\<not> within_heatmap_size (tile_rect P a b c d z) \<Longrightarrow>
   auto_zoom P a b c d z = auto_zoom P a b c d (z - 1)"
  by (subst auto_zoom.simps) simp

text \<open>The loop reaches the highest fitting zoom at or below its start.\<close>

lemma auto_zoom_reaches:
  assumes "within_heatmap_size (tile_rect P a b c d z0)"
    and "\<forall>z. z0 < z \<and> z \<le> z1 \<longrightarrow> \<not> within_heatmap_size (tile_rect P a b c d z)"
    and "z0 \<le> z1"
  shows "auto_zoom P a b c d z1 = Some (tile_rect P a b c d z0)"
  using assms
proof (induction "nat (z1 - z0)" arbitrary: z1)
  case 0
  then have "z1 = z0" by simp
  with "0.prems"(1) show ?case by (simp add: auto_zoom_here)
next
  case (Suc n)
  then have lt: "z0 < z1" by linarith
  with Suc.prems(2) have nf: "\<not> within_heatmap_size (tile_rect P a b c d z1)" by simp
  have "auto_zoom P a b c d (z1 - 1) = Some (tile_rect P a b c d z0)"
  proof (rule Suc.hyps(1))
    show "n = nat (z1 - 1 - z0)" using Suc.hyps(2) by linarith
    show "within_heatmap_size (tile_rect P a b c d z0)" by (rule Suc.prems(1))
    show "\<forall>z. z0 < z \<and> z \<le> z1 - 1 \<longrightarrow> \<not> within_heatmap_size (tile_rect P a b c d z)"
      using Suc.prems(2) by simp
    show "z0 \<le> z1 - 1" using lt by simp
  qed
  with nf show ?case by (simp add: auto_zoom_down)
qed

text \<open>Whatever the loop returns is the rectangle of a fitting zoom, the highest one.\<close>

lemma auto_zoom_result:
  assumes "auto_zoom P a b c d z1 = Some r"
  shows "zoom r \<le> z1 \<and> r = tile_rect P a b c d (zoom r) \<and> within_heatmap_size r \<and>
    (\<forall>z. zoom r < z \<and> z \<le> z1 \<longrightarrow> \<not> within_heatmap_size (tile_rect P a b c d z))"
proof (rule auto_zoom.raw_induct [OF _ assms], goal_cases)
  case (1 az P a b c d z1 r)
  show ?case
  proof (cases "within_heatmap_size (tile_rect P a b c d z1)")
    case True
    with 1(2) have "r = tile_rect P a b c d z1" by simp
    with True show ?thesis by auto
  next
    case False
    with 1(2) have "az P a b c d (z1 - 1) = Some r" by simp
    from 1(1) [OF this] have ih: "zoom r \<le> z1 - 1" "r = tile_rect P a b c d (zoom r)"
      "within_heatmap_size r"
      "\<forall>z. zoom r < z \<and> z \<le> z1 - 1 \<longrightarrow> \<not> within_heatmap_size (tile_rect P a b c d z)"
      by simp_all
    have "\<not> within_heatmap_size (tile_rect P a b c d z)" if "zoom r < z" "z \<le> z1" for z
    proof (cases "z = z1")
      case True
      with False show ?thesis by simp
    next
      case False
      with that have "z \<le> z1 - 1" by simp
      with ih(4) that(1) show ?thesis by simp
    qed
    with ih show ?thesis by simp
  qed
qed

lemma within_heatmap_size_iff:
  "within_heatmap_size r \<longleftrightarrow>
     (x_tile_max r - x_tile_min r + 1) * 256 \<le> 2160 \<and>
     (y_tile_max r - y_tile_min r + 1) * 256 \<le> 3840"
  by (simp add: within_heatmap_size_def OSM_TILE_SIZE_def MAX_HEATMAP_SIZE_def)




text \<open>
  C1 (as amended). In auto mode the loop starts at zoom 19 and returns the rectangle of
  the highest zoom, at most 19, at which the pixel width \<open>(x_max - x_min + 1) * 256\<close> is at
  most 2160 and the pixel height \<open>(y_max - y_min + 1) * 256\<close> is at most 3840: the width is
  compared with \<^verbatim>\<open>MAX_HEATMAP_SIZE[0]\<close> and the height with \<^verbatim>\<open>MAX_HEATMAP_SIZE[1]\<close>. So the
  returned mosaic is at most 2160 pixels wide and 3840 pixels high.
\<close>

theorem resolve_auto_highest_fit:
  assumes "arg_zoom < 0"
  shows "resolve P a b c d arg_zoom = Some r \<longleftrightarrow>
    zoom r \<le> 19 \<and> r = tile_rect P a b c d (zoom r) \<and>
    (x_tile_max r - x_tile_min r + 1) * 256 \<le> 2160 \<and>
    (y_tile_max r - y_tile_min r + 1) * 256 \<le> 3840 \<and>
    (\<forall>z. zoom r < z \<and> z \<le> 19 \<longrightarrow> \<not> within_heatmap_size (tile_rect P a b c d z))"
proof
  assume "resolve P a b c d arg_zoom = Some r"
  with assms have "auto_zoom P a b c d 19 = Some r"
    by (simp add: resolve_def OSM_MAX_ZOOM_def)
  from auto_zoom_result [OF this]
  show "zoom r \<le> 19 \<and> r = tile_rect P a b c d (zoom r) \<and>
    (x_tile_max r - x_tile_min r + 1) * 256 \<le> 2160 \<and>
    (y_tile_max r - y_tile_min r + 1) * 256 \<le> 3840 \<and>
    (\<forall>z. zoom r < z \<and> z \<le> 19 \<longrightarrow> \<not> within_heatmap_size (tile_rect P a b c d z))"
    by (simp add: within_heatmap_size_iff)
next
  assume R: "zoom r \<le> 19 \<and> r = tile_rect P a b c d (zoom r) \<and>
    (x_tile_max r - x_tile_min r + 1) * 256 \<le> 2160 \<and>
    (y_tile_max r - y_tile_min r + 1) * 256 \<le> 3840 \<and>
    (\<forall>z. zoom r < z \<and> z \<le> 19 \<longrightarrow> \<not> within_heatmap_size (tile_rect P a b c d z))"
  then have w: "within_heatmap_size (tile_rect P a b c d (zoom r))"
    by (metis within_heatmap_size_iff)
  from R have "auto_zoom P a b c d 19 = Some (tile_rect P a b c d (zoom r))"
    by (intro auto_zoom_reaches [OF w]) simp_all
  with R assms show "resolve P a b c d arg_zoom = Some r"
    by (simp add: resolve_def OSM_MAX_ZOOM_def)
qed

text \<open>
  Points on the equator from longitude 0 to 855/131072 degrees: ten tiles wide at zoom
  19 (2560 pixels), so the loop goes on to zoom 18, where the rectangle is five tiles wide.
\<close>

theorem resolve_auto_highest_fit_witness:
  "(-1::int) < 0 \<and>
   resolve flat_xy 0 0 0 (855 / 131072) (-1) =
     Some \<lparr>zoom = 18, x_tile_min = 131072, x_tile_max = 131076,
           y_tile_min = 131072, y_tile_max = 131072\<rparr> \<and>
   (131076 - 131072 + 1) * 256 \<le> (2160::int) \<and>
   \<not> within_heatmap_size (tile_rect flat_xy 0 0 0 (855 / 131072) 19)"
proof -
  have neg: "(-1::int) < 0" by simp
  have run: "resolve flat_xy 0 0 0 (855 / 131072) (-1) =
     Some \<lparr>zoom = 18, x_tile_min = 131072, x_tile_max = 131076,
           y_tile_min = 131072, y_tile_max = 131072\<rparr>"
    by code_simp
  from resolve_auto_highest_fit [OF neg, THEN iffD1, OF run] run show ?thesis
    by simp
qed

text \<open>
  C1 as stated fails twice. With the points of the witness the width at zoom 19 is 2560
  pixels and the height 256, within (3840, 2160), yet the loop does not stop there but at
  zoom 18. With points on the meridian from latitude 0 to 855/262144 degrees the loop
  stops at zoom 19 with a mosaic of 11 tiles, 2816 pixels, in height: more than 2160.
\<close>

theorem resolve_auto_size_counterexample:
  "(x_tile_max (tile_rect flat_xy 0 0 0 (855 / 131072) 19) -
      x_tile_min (tile_rect flat_xy 0 0 0 (855 / 131072) 19) + 1) * 256 \<le> 3840 \<and>
   (y_tile_max (tile_rect flat_xy 0 0 0 (855 / 131072) 19) -
      y_tile_min (tile_rect flat_xy 0 0 0 (855 / 131072) 19) + 1) * 256 \<le> 2160 \<and>
   map_option zoom (resolve flat_xy 0 0 0 (855 / 131072) (-1)) = Some 18 \<and>
   map_option zoom (resolve flat_xy 0 0 (855 / 262144) 0 (-1)) = Some 19 \<and>
   map_option (\<lambda>r. (y_tile_max r - y_tile_min r + 1) * 256)
     (resolve flat_xy 0 0 (855 / 262144) 0 (-1)) = Some 2816 \<and>
   (2160::int) < 2816"
  by code_simp



text \<open>
  The loop itself has no exit at zoom 0: for points outside the world tile, here on the
  equator with longitudes from -180 to 3420 degrees, eleven tiles at zoom 0, it goes on
  to zoom -1.
\<close>

lemma auto_zoom_below_zero:
  "map_option zoom (resolve flat_xy 0 (- 180) 0 3420 (- 1)) = Some (- 1) \<and>
   \<not> in_world_tile flat_xy 0 3420"
  by code_simp

subsection \<open>Splatting\<close>

lemma map_slice_length [simp]: "length (map_slice f a b xs) = length xs"
  by (simp add: map_slice_def)

lemma map_slice_nth:
  "k < length xs \<Longrightarrow>
   map_slice f a b xs ! k = (if in_slice (length xs) a b k then f (xs ! k) else xs ! k)"
  by (simp add: map_slice_def nth_enumerate_eq)

lemma splat_at_length [simp]: "length (splat_at data p) = length data"
  by (simp add: splat_at_def split: prod.splits)

lemma splat_at_row_length:
  "r < length data \<Longrightarrow> length (splat_at data p ! r) = length (data ! r)"
  by (simp add: splat_at_def map_slice_nth split: prod.splits)

lemma splat_at_nth:
  assumes "r < length data" "c < length (data ! r)"
  shows "splat_at data (j, i) ! r ! c =
    data ! r ! c + (if in_slice (length data) (i - 1) (i + 1) r \<and>
                       in_slice (length (data ! r)) (j - 1) (j + 1) c then 1 else 0)"
  using assms by (simp add: splat_at_def map_slice_nth sigma_pixel_def)

lemma has_shape_splat_at: "has_shape h w data \<Longrightarrow> has_shape h w (splat_at data p)"
  by (auto simp: has_shape_def list_all_length splat_at_row_length)

lemma has_shape_replicate [simp]: "has_shape h w (replicate h (replicate w x))"
  by (simp add: has_shape_def list_all_iff)

lemma splat_at_hits:
  assumes "has_shape h w data" "r < h" "c < w"
  shows "splat_at data p ! r ! c = data ! r ! c + (if hits h w r c p then 1 else 0)"
proof -
  obtain j i where p: "p = (j, i)" by (cases p)
  from assms have "r < length data" "length (data ! r) = w" "length data = h"
    by (auto simp: has_shape_def list_all_length)
  with assms(3) show ?thesis
    unfolding p hits_def by (simp add: splat_at_nth)
qed


lemma in_slice_inner:
  "1 \<le> i \<Longrightarrow> k < n \<Longrightarrow> in_slice n (i - 1) (i + 1) k \<longleftrightarrow> int k = i - 1 \<or> int k = i"
  by (auto simp: in_slice_def py_slice_bound_def)

text \<open>
  The slice \<^verbatim>\<open>[-1:1]\<close> of index 0 starts at the last element and stops before the second:
  it is empty unless the axis has just one element.
\<close>

lemma in_slice_zero: "n \<noteq> 1 \<Longrightarrow> \<not> in_slice n (- 1) 1 k"
  by (auto simp: in_slice_def py_slice_bound_def)

lemma grid_eqI:
  assumes "has_shape h w a" "has_shape h w b"
    and "\<And>r c. r < h \<Longrightarrow> c < w \<Longrightarrow> a ! r ! c = b ! r ! c"
  shows "a = b"
proof (rule nth_equalityI)
  show "length a = length b" using assms(1,2) by (simp add: has_shape_def)
next
  fix r assume r: "r < length a"
  with assms(1,2) have "r < h" "length (a ! r) = w" "length (b ! r) = w"
    by (auto simp: has_shape_def list_all_length)
  then show "a ! r = b ! r"
    by (intro nth_equalityI) (simp_all add: assms(3))
qed

lemma splat_at_first_index:
  assumes "has_shape h w data" "h \<noteq> 1" "w \<noteq> 1" "i = 0 \<or> j = 0"
  shows "splat_at data (j, i) = data"
proof (rule grid_eqI [OF has_shape_splat_at [OF assms(1)] assms(1)])
  fix r c assume "r < h" "c < w"
  from assms(2-4) have "\<not> hits h w r c (j, i)"
    by (auto simp: hits_def in_slice_zero)
  with splat_at_hits [OF assms(1) \<open>r < h\<close> \<open>c < w\<close>, of "(j, i)"]
  show "splat_at data (j, i) ! r ! c = data ! r ! c" by simp
qed




text \<open>
  C10. On the density grid of the render, whose sides are multiples of 256, the slice
  \<^verbatim>\<open>[0 - 1 : 0 + 1]\<close> of index 0 holds no index, and a point of row 0 or column 0 leaves
  the grid as it is. For a point of positive row \<open>i\<close> and column
  \<open>j\<close> the pixels incremented are those of rows \<open>i - 1, i\<close> and columns \<open>j - 1, j\<close> that exist:
  at or past the far edge the window is cut, down to nothing, and the grid keeps its shape.
  The model of the slice assignment has no error.
\<close>

theorem splat_edges:
  assumes "has_shape (256 * th) (256 * tw) data"
  shows "(\<forall>k. \<not> in_slice (256 * th) (0 - 1) (0 + 1) k \<and>
            \<not> in_slice (256 * tw) (0 - 1) (0 + 1) k) \<and>
    (i = 0 \<or> j = 0 \<longrightarrow> splat_at data (j, i) = data) \<and>
    (0 < i \<and> 0 < j \<longrightarrow>
      (\<forall>r c. r < 256 * th \<and> c < 256 * tw \<longrightarrow>
         splat_at data (j, i) ! r ! c =
         data ! r ! c + (if (int r = i - 1 \<or> int r = i) \<and> (int c = j - 1 \<or> int c = j)
                         then 1 else 0))) \<and>
    has_shape (256 * th) (256 * tw) (splat_at data (j, i))"
proof -
  have ne: "256 * th \<noteq> 1" "256 * tw \<noteq> 1" by presburger+
  have e: "\<not> in_slice (256 * th) (0 - 1) (0 + 1) k \<and> \<not> in_slice (256 * tw) (0 - 1) (0 + 1) k"
    for k
    using in_slice_zero [OF ne(1), of k] in_slice_zero [OF ne(2), of k] by simp
  have a: "splat_at data (j, i) = data" if "i = 0 \<or> j = 0"
    by (rule splat_at_first_index [OF assms ne that])
  have b: "splat_at data (j, i) ! r ! c =
      data ! r ! c + (if (int r = i - 1 \<or> int r = i) \<and> (int c = j - 1 \<or> int c = j)
                      then 1 else 0)"
    if "0 < i" "0 < j" "r < 256 * th" "c < 256 * tw" for r c
    using splat_at_hits [OF assms that(3,4), of "(j, i)"] that
    by (simp add: hits_def in_slice_inner)
  from e a b has_shape_splat_at [OF assms] show ?thesis by auto
qed

text \<open>
  On an empty grid of one tile: a point of row 0 changes nothing; the point of row 256
  and column 256, one past the last pixel, increments the last pixel only.
\<close>

theorem splat_edges_witness:
  "splat_at (replicate 256 (replicate 256 0)) (7, 0) = replicate 256 (replicate 256 0) \<and>
   splat_at (replicate 256 (replicate 256 0)) (256, 256) ! 255 ! 255 = 1 \<and>
   splat_at (replicate 256 (replicate 256 0)) (256, 256) ! 254 ! 255 = 0 \<and>
   has_shape 256 256 (splat_at (replicate 256 (replicate 256 0)) (256, 256))"
proof -
  have s: "has_shape (256 * 1) (256 * 1) (replicate 256 (replicate 256 (0::real)))" by simp
  show ?thesis
    using splat_edges [OF s, of 0 7] splat_edges [OF s, of 256 256]
    by simp
qed

subsection \<open>Normalisation\<close>

lemma fold_min_Min: "fold min xs (x::real) = Min (set (x # xs))"
  by (rule Min.set_eq_fold [symmetric])

lemma fold_max_Max: "fold max xs (x::real) = Max (set (x # xs))"
  by (rule Max.set_eq_fold [symmetric])

lemma np_amin_Inr: "np_amin xs = Inr v \<Longrightarrow> xs \<noteq> [] \<and> v = Min (set xs)"
  by (cases xs) (auto simp: np_amin_def fold_min_Min)

lemma np_amax_Inr: "np_amax xs = Inr v \<Longrightarrow> xs \<noteq> [] \<and> v = Max (set xs)"
  by (cases xs) (auto simp: np_amax_def fold_max_Max)

lemma np_amin_Min: "xs \<noteq> [] \<Longrightarrow> np_amin xs = Inr (Min (set xs))"
  by (cases xs) (auto simp: np_amin_def fold_min_Min)

lemma np_amax_Max: "xs \<noteq> [] \<Longrightarrow> np_amax xs = Inr (Max (set xs))"
  by (cases xs) (auto simp: np_amax_def fold_max_Max)

lemma concat_map_map: "concat (map (map f) xss) = map f (concat xss)"
  by (induction xss) simp_all


text \<open>
  C4. When the grid's maximum is strictly greater than its minimum, the normalised grid
  has finite values only, its minimum is 0, its maximum is 1, and every value lies in
  \<open>[0, 1]\<close>.
\<close>

theorem normalize_unit_range:
  assumes "np_amin (concat data) = Inr lo" "np_amax (concat data) = Inr hi" "lo < hi"
  shows "\<exists>g. normalize data = Inr (map (map Float) g) \<and>
    np_amin (concat g) = Inr 0 \<and> np_amax (concat g) = Inr 1 \<and>
    (\<forall>v \<in> set (concat g). 0 \<le> v \<and> v \<le> 1)"
proof -
  let ?f = "\<lambda>x. (x - lo) / (hi - lo)"
  let ?g = "map (map ?f) data"
  from np_amin_Inr [OF assms(1)] np_amax_Inr [OF assms(2)]
  have ne: "concat data \<noteq> []" and lo: "lo = Min (set (concat data))"
    and hi: "hi = Max (set (concat data))" by simp_all
  have d: "0 < hi - lo" using assms(3) by simp
  have "map (map (\<lambda>x. np_div (x - lo) (hi - lo))) data = map (map Float) ?g"
    using d by (simp add: np_div_def comp_def)
  then have n: "normalize data = Inr (map (map Float) ?g)"
    using assms(1,2) by (simp add: normalize_def)
  have c: "concat ?g = map ?f (concat data)" by (rule concat_map_map)
  have lo_in: "lo \<in> set (concat data)" unfolding lo using ne by (intro Min_in) simp_all
  have hi_in: "hi \<in> set (concat data)" unfolding hi using ne by (intro Max_in) simp_all
  have bounds: "lo \<le> x \<and> x \<le> hi" if "x \<in> set (concat data)" for x
  proof -
    have "Min (set (concat data)) \<le> x" "x \<le> Max (set (concat data))"
      using that by (simp_all del: set_concat)
    then show ?thesis using lo hi by simp
  qed
  have rng: "0 \<le> ?f x \<and> ?f x \<le> 1" if "x \<in> set (concat data)" for x
    using bounds [OF that] d by (simp add: divide_le_eq)
  have ne': "concat ?g \<noteq> []" unfolding c using ne by simp
  have f0: "?f lo = 0" by simp
  have f1: "?f hi = 1" using d by simp
  have in0: "0 \<in> set (concat ?g)" unfolding c set_map using lo_in f0 by (rule rev_image_eqI [OF _ sym])
  have in1: "1 \<in> set (concat ?g)" unfolding c set_map using hi_in f1 by (rule rev_image_eqI [OF _ sym])
  have all: "0 \<le> y \<and> y \<le> 1" if "y \<in> set (concat ?g)" for y
  proof -
    from that obtain x where "x \<in> set (concat data)" "y = ?f x" unfolding c set_map by blast
    with rng show ?thesis by blast
  qed
  have "Min (set (concat ?g)) = 0"
    by (rule Min_eqI) (use all in0 in \<open>simp_all del: set_concat\<close>)
  moreover have "Max (set (concat ?g)) = 1"
    by (rule Max_eqI) (use all in1 in \<open>simp_all del: set_concat\<close>)
  ultimately have "np_amin (concat ?g) = Inr 0" "np_amax (concat ?g) = Inr 1"
    using np_amin_Min [OF ne'] np_amax_Max [OF ne'] by simp_all
  with all n show ?thesis by blast
qed

theorem normalize_unit_range_witness:
  "(\<exists>g. normalize [[1, 3], [2, 5]] = Inr (map (map Float) g) \<and>
      np_amin (concat g) = Inr 0 \<and> np_amax (concat g) = Inr 1 \<and>
      (\<forall>v \<in> set (concat g). 0 \<le> v \<and> v \<le> 1)) \<and>
   normalize [[1, 3], [2, 5]] = Inr [[Float 0, Float (1 / 2)], [Float (1 / 4), Float 1]]"
proof -
  have lo: "np_amin (concat [[1, 3], [2, 5]]) = Inr 1" by (simp add: np_amin_def)
  have hi: "np_amax (concat [[1, 3], [2, 5]]) = Inr 5" by (simp add: np_amax_def)
  have lt: "(1::real) < 5" by simp
  have "normalize [[1, 3], [2, 5]] = Inr [[Float 0, Float (1 / 2)], [Float (1 / 4), Float 1]]"
    by (simp add: normalize_def np_amin_def np_amax_def np_div_def)
  with normalize_unit_range [OF lo hi lt] show ?thesis by blast
qed

subsection \<open>Colours and compositing\<close>

lemma composite_nth:
  assumes "i < length dc" "i < length st" "j < length (dc ! i)" "j < length (st ! i)"
  shows "composite dc st ! i ! j = composite_pixel (dc ! i ! j) (st ! i ! j)"
  using assms by (simp add: composite_def)

lemma blend_unit:
  fixes c s :: real
  assumes "0 \<le> c" "c \<le> 1" "0 \<le> s" "s \<le> 1"
  shows "0 \<le> (1 - c) * s + c \<and> (1 - c) * s + c \<le> 1"
proof -
  have "0 \<le> (1 - c) * s" using assms by simp
  then have a: "0 \<le> (1 - c) * s + c" using assms(1) by simp
  have "(1 - c) * s \<le> (1 - c) * 1" using assms by (intro mult_left_mono) simp_all
  then have "(1 - c) * s + c \<le> 1" by simp
  with a show ?thesis by simp
qed

lemma composite_pixel_unit:
  "unit_rgba c \<Longrightarrow> unit_rgb p \<Longrightarrow> unit_rgb (composite_pixel c p)"
  by (cases c; cases p) (simp add: unit_rgba_def unit_rgb_def composite_pixel_def blend_unit)

lemma remove_background_unit: "unit_rgba c \<Longrightarrow> unit_rgba (remove_background b c)"
  by (cases c; cases b) (simp add: unit_rgba_def remove_background_def)



lemma in_set_composite:
  assumes "row \<in> set (composite dc st)" "p \<in> set row"
  shows "\<exists>c s. c \<in> \<Union> (set ` set dc) \<and> s \<in> \<Union> (set ` set st) \<and> p = composite_pixel c s"
proof -
  from assms(1) obtain i where i: "i < length dc" "i < length st"
    "row = map2 composite_pixel (dc ! i) (st ! i)"
    by (auto simp: composite_def in_set_conv_nth)
  from assms(2) i(3) obtain j where j: "j < length (dc ! i)" "j < length (st ! i)"
    "p = composite_pixel (dc ! i ! j) (st ! i ! j)"
    by (auto simp: in_set_conv_nth)
  from i j have "dc ! i ! j \<in> \<Union> (set ` set dc)" "st ! i ! j \<in> \<Union> (set ` set st)"
    by (auto intro!: bexI [of _ "dc ! i"] bexI [of _ "st ! i"])
  with j(3) show ?thesis by blast
qed

text \<open>
  C8. Every pixel of the result is \<open>(1 - color[c]) * mosaic[c] + color[c]\<close> in each of
  the three channels, the colour being the one left by the background removal; and when
  all values of the colour map and of the mosaic lie in \<open>[0, 1]\<close>, so do all values of
  the result.
\<close>

theorem composite_unit_range:
  assumes "\<forall>v. unit_rgba (cmap v)"
    and "\<forall>row \<in> set supertile. \<forall>p \<in> set row. unit_rgb p"
  shows "(\<forall>i j. i < length data \<and> i < length supertile \<and>
            j < length (data ! i) \<and> j < length (supertile ! i) \<longrightarrow>
          composite (colorize cmap data) supertile ! i ! j =
            (case colorize cmap data ! i ! j of (r, g, b, a) \<Rightarrow>
               (case supertile ! i ! j of (sr, sg, sb) \<Rightarrow>
                  ((1 - r) * sr + r, (1 - g) * sg + g, (1 - b) * sb + b)))) \<and>
    (\<forall>row \<in> set (composite (colorize cmap data) supertile). \<forall>p \<in> set row. unit_rgb p)"
proof (intro conjI allI impI ballI)
  fix i j
  assume "i < length data \<and> i < length supertile \<and>
    j < length (data ! i) \<and> j < length (supertile ! i)"
  then have "composite (colorize cmap data) supertile ! i ! j =
    composite_pixel (colorize cmap data ! i ! j) (supertile ! i ! j)"
    by (intro composite_nth) (simp_all add: colorize_def)
  then show "composite (colorize cmap data) supertile ! i ! j =
    (case colorize cmap data ! i ! j of (r, g, b, a) \<Rightarrow>
       (case supertile ! i ! j of (sr, sg, sb) \<Rightarrow>
          ((1 - r) * sr + r, (1 - g) * sg + g, (1 - b) * sb + b)))"
    by (simp add: composite_pixel_def)
next
  fix row p
  assume "row \<in> set (composite (colorize cmap data) supertile)" "p \<in> set row"
  from in_set_composite [OF this] obtain c s where
    c: "c \<in> \<Union> (set ` set (colorize cmap data))" and s: "s \<in> \<Union> (set ` set supertile)"
    and p: "p = composite_pixel c s" by blast
  from c obtain v where "c = remove_background (cmap (Float 0)) (cmap v)"
    by (auto simp: colorize_def)
  with assms(1) have "unit_rgba c" by (simp add: remove_background_unit)
  moreover from s assms(2) have "unit_rgb s" by auto
  ultimately show "unit_rgb p" unfolding p by (rule composite_pixel_unit)
qed

theorem composite_unit_range_witness:
  "composite (colorize ramp [[Float 0, Float 1]])
     [[(3 / 10, 3 / 10, 3 / 10), (1 / 2, 1 / 2, 1 / 2)]] ! 0 ! 1 = (1, 3 / 4, 1 / 2) \<and>
   unit_rgb (1, 3 / 4, 1 / 2)"
proof -
  have a: "\<forall>v. unit_rgba (ramp v)"
    by (auto simp: ramp_def unit_rgba_def Let_def min_def max_def split: npfloat.splits)
  have b: "\<forall>row \<in> set [[(3 / 10, 3 / 10, 3 / 10), (1 / 2, 1 / 2, 1 / 2)]].
    \<forall>p \<in> set row. unit_rgb p"
    by (simp add: unit_rgb_def)
  have c: "colorize ramp [[Float 0, Float 1]] ! 0 ! 1 = (1, 1 / 2, 0, 0)"
    by (simp add: colorize_def ramp_def remove_background_def)
  from composite_unit_range [OF a b, of "[[Float 0, Float 1]]"]
  have "composite (colorize ramp [[Float 0, Float 1]])
      [[(3 / 10, 3 / 10, 3 / 10), (1 / 2, 1 / 2, 1 / 2)]] ! 0 ! 1 =
    (case colorize ramp [[Float 0, Float 1]] ! 0 ! 1 of (r, g, b, a) \<Rightarrow>
       (case [[(3 / 10, 3 / 10, 3 / 10), (1 / 2, 1 / 2, 1 / 2)]] ! 0 ! 1 of (sr, sg, sb) \<Rightarrow>
          ((1 - r) * sr + r, (1 - g) * sg + g, (1 - b) * sb + b)))"
    by simp
  with c show ?thesis by (simp add: unit_rgb_def)
qed




subsection \<open>Histogram equalisation\<close>

lemma collect_cong_Inr:
  "(\<And>v. v \<in> set xs \<Longrightarrow> g v = Inr (f v)) \<Longrightarrow> collect (map g xs) = Inr (map f xs)"
  by (induction xs) simp_all

lemma length_cumsum_from [simp]: "length (cumsum_from acc xs) = length xs"
  by (induction xs arbitrary: acc) simp_all

lemma cumsum_from_first: "0 < length xs \<Longrightarrow> cumsum_from acc xs ! 0 = acc + xs ! 0"
  by (cases xs) simp_all

lemma cumsum_from_second:
  "1 < length xs \<Longrightarrow> cumsum_from acc xs ! 1 = acc + xs ! 0 + xs ! 1"
proof (cases xs)
  case Nil
  assume "1 < length xs"
  with Nil show ?thesis by simp
next
  case (Cons x ys)
  assume "1 < length xs"
  with Cons have "0 < length ys" by simp
  from cumsum_from_first [OF this, of "acc + x"] Cons show ?thesis by simp
qed

lemma outer_edges_01:
  assumes "\<forall>v \<in> set a. v = 0 \<or> v = 1" "0 \<in> set a" "1 \<in> set a"
  shows "outer_edges a = (0, 1)"
proof -
  from assms(2) obtain x r where a: "a = x # r" by (cases a) auto
  have "Min (set a) = 0"
    by (rule Min_eqI) (use assms in auto)
  moreover have "Max (set a) = 1"
    by (rule Max_eqI) (use assms in auto)
  ultimately have "fold min r x = 0" "fold max r x = 1"
    unfolding a by (simp_all only: fold_min_Min fold_max_Max)
  then show ?thesis by (simp add: outer_edges_def a)
qed

text \<open>
  On a grid with the two values 0 and 1 and \<open>m \<ge> 2\<close>, the \<open>m + 1\<close> bins of
  \<^verbatim>\<open>np.histogram\<close> divide the interval from 0 to 1: the pixels of value 1 are counted in
  the last bin, and bin 1 is empty.
\<close>

lemma histogram_two_levels:
  assumes m: "2 \<le> m"
    and v01: "\<forall>v \<in> set a. v = 0 \<or> v = 1"
    and z: "0 \<in> set a" and o: "1 \<in> set a"
  shows "\<exists>hist. np_histogram a (m + 1) = Inr hist \<and> length hist = nat (m + 1) \<and>
    hist ! 0 = length (filter (\<lambda>v. v = 0) a) \<and> hist ! 1 = 0"
proof -
  define hist where
    "hist = map (\<lambda>k. length (filter (\<lambda>v. bin_index 0 1 (m + 1) v = k) a)) [0..m + 1 - 1]"
  have h: "np_histogram a (m + 1) = Inr hist"
    unfolding np_histogram_def outer_edges_01 [OF v01 z o] hist_def using m by simp
  have len: "length hist = nat (m + 1)" unfolding hist_def by simp
  have bi: "bin_index 0 1 (m + 1) v = (if v = 1 then m else 0)" if "v \<in> set a" for v
  proof -
    from that v01 have "v = 0 \<or> v = 1" by blast
    then show ?thesis by (auto simp: bin_index_def)
  qed
  have u0: "[0..m + 1 - 1] ! 0 = 0" using m by (simp add: nth_upto)
  have u1: "[0..m + 1 - 1] ! 1 = 1" using m by (simp add: nth_upto)
  have lu: "length [0..m + 1 - 1] = nat (m + 1)" by simp
  have "hist ! 0 = length (filter (\<lambda>v. bin_index 0 1 (m + 1) v = 0) a)"
    unfolding hist_def using m lu u0 by (subst nth_map) simp_all
  also have "filter (\<lambda>v. bin_index 0 1 (m + 1) v = 0) a = filter (\<lambda>v. v = 0) a"
  proof (rule filter_cong [OF refl])
    fix v assume va: "v \<in> set a"
    from v01 va have "v = 0 \<or> v = 1" by blast
    with bi [OF va] m show "(bin_index 0 1 (m + 1) v = 0) = (v = 0)" by auto
  qed
  finally have h0: "hist ! 0 = length (filter (\<lambda>v. v = 0) a)" .
  have "hist ! 1 = length (filter (\<lambda>v. bin_index 0 1 (m + 1) v = 1) a)"
    unfolding hist_def using m lu u1 by (subst nth_map) simp_all
  also have "filter (\<lambda>v. bin_index 0 1 (m + 1) v = 1) a = filter (\<lambda>v. False) a"
  proof (rule filter_cong [OF refl])
    fix v assume "v \<in> set a"
    from bi [OF this] m show "(bin_index 0 1 (m + 1) v = 1) = False" by auto
  qed
  finally have h1: "hist ! 1 = 0" by simp
  from h len h0 h1 show ?thesis by blast
qed

text \<open>Then every pixel, of value 0 or 1, reads the count of bin 0.\<close>

lemma equalize_two_levels:
  assumes m: "2 \<le> m"
    and v01: "\<forall>v \<in> set (concat data). v = 0 \<or> v = 1"
    and z: "0 \<in> set (concat data)" and o: "1 \<in> set (concat data)"
  shows "equalize m data =
    Inr (map (map (\<lambda>v. of_int m *
      (real (length (filter (\<lambda>v. v = 0) (concat data))) / real (length (concat data))))) data)"
proof -
  define a where "a = concat data"
  define q where "q = real (length (filter (\<lambda>v. v = 0) a)) / real (length a)"
  from histogram_two_levels [OF m, of a] v01 z o obtain hist where
    h: "np_histogram a (m + 1) = Inr hist" and len: "length hist = nat (m + 1)"
    and h0: "hist ! 0 = length (filter (\<lambda>v. v = 0) a)" and h1: "hist ! 1 = 0"
    unfolding a_def by blast
  define dh where "dh = map (\<lambda>c. real c / real (length a)) (np_cumsum hist)"
  have l2: "1 < length hist" "0 < length hist" using m len by simp_all
  have c0: "np_cumsum hist ! 0 = length (filter (\<lambda>v. v = 0) a)"
    unfolding np_cumsum_def using cumsum_from_first [OF l2(2), of 0] h0 by simp
  have c1: "np_cumsum hist ! 1 = length (filter (\<lambda>v. v = 0) a)"
    unfolding np_cumsum_def using cumsum_from_second [OF l2(1), of 0] h0 h1 by simp
  have lc: "length (np_cumsum hist) = nat (m + 1)" by (simp add: np_cumsum_def len)
  have ldh: "length dh = nat (m + 1)" by (simp add: dh_def lc)
  have d0: "dh ! 0 = q" unfolding dh_def q_def using lc m c0 by (subst nth_map) simp_all
  have d1: "dh ! 1 = q" unfolding dh_def q_def using lc m c1 by (subst nth_map) simp_all
  have g0: "py_getitem dh 0 = Inr q"
    using m d0 by (simp add: py_getitem_def ldh)
  have g1: "py_getitem dh 1 = Inr q"
    using m d1 by (simp add: py_getitem_def ldh)
  have px: "(case py_getitem dh (py_int v) of Inl e \<Rightarrow> Inl e | Inr h \<Rightarrow> Inr (of_int m * h)) =
      Inr (of_int m * q)"
    if "v \<in> set a" for v
  proof -
    from that v01 have "v = 0 \<or> v = 1" unfolding a_def by blast
    then show ?thesis
    proof
      assume "v = 0"
      then show ?thesis using g0 by (simp add: py_int_def)
    next
      assume "v = 1"
      then show ?thesis using g1 by (simp add: py_int_def)
    qed
  qed
  have rows: "collect (map (\<lambda>v. case py_getitem dh (py_int v) of
        Inl e \<Rightarrow> Inl e | Inr h \<Rightarrow> Inr (of_int m * h)) row) =
      Inr (map (\<lambda>v. of_int m * q) row)"
    if "row \<in> set data" for row
  proof (rule collect_cong_Inr)
    fix v assume "v \<in> set row"
    with that have "v \<in> set a" unfolding a_def by auto
    then show "(case py_getitem dh (py_int v) of Inl e \<Rightarrow> Inl e | Inr h \<Rightarrow> Inr (of_int m * h)) =
      Inr (of_int m * q)" by (rule px)
  qed
  have all: "collect (map (\<lambda>row. collect (map (\<lambda>v. case py_getitem dh (py_int v) of
        Inl e \<Rightarrow> Inl e | Inr h \<Rightarrow> Inr (of_int m * h)) row)) data) =
      Inr (map (map (\<lambda>v. of_int m * q)) data)"
    by (rule collect_cong_Inr) (rule rows)
  have "equalize m data = collect (map (\<lambda>row. collect (map (\<lambda>v. case py_getitem dh (py_int v) of
        Inl e \<Rightarrow> Inl e | Inr h \<Rightarrow> Inr (of_int m * h)) row)) data)"
    unfolding equalize_def a_def [symmetric] h dh_def by (simp only: Let_def sum.case)
  with all show ?thesis unfolding q_def a_def by simp
qed

lemma spec_equalize_two_levels:
  assumes m: "2 \<le> m"
    and v01: "\<forall>v \<in> set (concat data). v = 0 \<or> v = 1"
    and o: "1 \<in> set (concat data)"
  shows "spec_equalize m data =
    map (map (\<lambda>v. if v = 0
      then of_int m *
        (real (length (filter (\<lambda>v. v = 0) (concat data))) / real (length (concat data)))
      else of_int m)) data"
proof -
  define a where "a = concat data"
  define q where "q = real (length (filter (\<lambda>v. v = 0) a)) / real (length a)"
  define hist where "hist = spec_histogram m a"
  define ch where "ch = map (\<lambda>c. real c / real (length a)) (np_cumsum hist)"
  have len: "length hist = nat (m + 1)" unfolding hist_def spec_histogram_def by simp
  have l2: "1 < length hist" "0 < length hist" using m len by simp_all
  have u0: "[0..m] ! 0 = 0" using m by (simp add: nth_upto)
  have u1: "[0..m] ! 1 = 1" using m by (simp add: nth_upto)
  have lu: "length [0..m] = nat (m + 1)" by simp
  have "hist ! 0 = length (filter (\<lambda>v. \<lfloor>v\<rfloor> = 0) a)"
    unfolding hist_def spec_histogram_def using m lu u0 by (subst nth_map) simp_all
  also have "filter (\<lambda>v. \<lfloor>v\<rfloor> = 0) a = filter (\<lambda>v. v = 0) a"
  proof (rule filter_cong [OF refl])
    fix v assume "v \<in> set a"
    with v01 have "v = 0 \<or> v = 1" unfolding a_def by blast
    then show "(\<lfloor>v\<rfloor> = 0) = (v = 0)" by auto
  qed
  finally have h0: "hist ! 0 = length (filter (\<lambda>v. v = 0) a)" .
  have "hist ! 1 = length (filter (\<lambda>v. \<lfloor>v\<rfloor> = 1) a)"
    unfolding hist_def spec_histogram_def using m lu u1 by (subst nth_map) simp_all
  also have "filter (\<lambda>v. \<lfloor>v\<rfloor> = 1) a = filter (\<lambda>v. \<not> v = 0) a"
  proof (rule filter_cong [OF refl])
    fix v assume "v \<in> set a"
    with v01 have "v = 0 \<or> v = 1" unfolding a_def by blast
    then show "(\<lfloor>v\<rfloor> = 1) = (\<not> v = 0)" by auto
  qed
  finally have h1: "hist ! 1 = length (filter (\<lambda>v. \<not> v = 0) a)" .
  have tot: "hist ! 0 + hist ! 1 = length a"
    unfolding h0 h1 by (rule sum_length_filter_compl)
  have pos: "0 < length a" using o unfolding a_def by (cases "concat data") auto
  have c0: "np_cumsum hist ! 0 = length (filter (\<lambda>v. v = 0) a)"
    unfolding np_cumsum_def using cumsum_from_first [OF l2(2), of 0] h0 by simp
  have c1: "np_cumsum hist ! 1 = length a"
    unfolding np_cumsum_def using cumsum_from_second [OF l2(1), of 0] tot by simp
  have lc: "length (np_cumsum hist) = nat (m + 1)" by (simp add: np_cumsum_def len)
  have d0: "ch ! 0 = q" unfolding ch_def q_def using lc m c0 by (subst nth_map) simp_all
  have "ch ! 1 = real (length a) / real (length a)"
    unfolding ch_def using lc m c1 by (subst nth_map) simp_all
  then have d1: "ch ! 1 = 1" using pos by simp
  have px: "of_int m * ch ! nat \<lfloor>v\<rfloor> = (if v = 0 then of_int m * q else of_int m)"
    if "v \<in> set a" for v
  proof -
    from that v01 have "v = 0 \<or> v = 1" unfolding a_def by blast
    then show ?thesis using d0 d1 by auto
  qed
  have "map (map (\<lambda>v. of_int m * ch ! nat \<lfloor>v\<rfloor>)) data =
      map (map (\<lambda>v. if v = 0 then of_int m * q else of_int m)) data"
  proof (intro map_cong refl)
    fix row v assume "row \<in> set data" "v \<in> set row"
    then have "v \<in> set a" unfolding a_def by auto
    then show "of_int m * ch ! nat \<lfloor>v\<rfloor> = (if v = 0 then of_int m * q else of_int m)"
      by (rule px)
  qed
  moreover have "spec_equalize m data = map (map (\<lambda>v. of_int m * ch ! nat \<lfloor>v\<rfloor>)) data"
    unfolding spec_equalize_def a_def [symmetric] ch_def hist_def by (simp only: Let_def)
  ultimately show ?thesis unfolding q_def a_def by simp
qed

text \<open>
  Where the clipped grid holds integer values and reaches both 0 and \<open>m\<close>, the bin of
  \<^verbatim>\<open>np.histogram\<close> of a value \<open>v\<close> is bin \<open>v\<close>, and the code computes the equalisation
  as the specification words it.
\<close>

lemma bin_index_integer:
  assumes "1 \<le> m" "0 \<le> k" "k \<le> m"
  shows "bin_index 0 (of_int m) (m + 1) (of_int k) = k"
proof (cases "k = m")
  case True
  then show ?thesis using assms by (simp add: bin_index_def)
next
  case False
  with assms have km: "k < m" by simp
  have mpos: "0 < (of_int m :: real)" using assms(1) by simp
  have eq: "(of_int k - 0) / (of_int m :: real) * of_int (m + 1) = of_int k + of_int k / of_int m"
    using mpos by (simp add: field_simps)
  have "0 \<le> of_int k / (of_int m :: real)" using assms(2) mpos by simp
  moreover have "of_int k / (of_int m :: real) < 1" using km mpos by simp
  ultimately have "\<lfloor>of_int k + of_int k / (of_int m :: real)\<rfloor> = k"
    by (intro floor_unique) simp_all
  with eq False show ?thesis by (simp add: bin_index_def)
qed

lemma outer_edges_full:
  assumes "1 \<le> m" "\<forall>v \<in> set a. 0 \<le> v \<and> v \<le> of_int m" "0 \<in> set a" "of_int m \<in> set a"
  shows "outer_edges a = (0, of_int m)"
proof -
  from assms(3) obtain x r where a: "a = x # r" by (cases a) auto
  have "Min (set a) = 0"
    by (rule Min_eqI) (use assms in auto)
  moreover have "Max (set a) = of_int m"
    by (rule Max_eqI) (use assms in auto)
  ultimately have "fold min r x = 0" "fold max r x = of_int m"
    unfolding a by (simp_all only: fold_min_Min fold_max_Max)
  then show ?thesis using assms(1) by (simp add: outer_edges_def a)
qed

lemma equalize_full_range:
  assumes m: "1 \<le> m"
    and ints: "\<forall>v \<in> set (concat data). \<exists>k. 0 \<le> k \<and> k \<le> m \<and> v = of_int k"
    and z: "0 \<in> set (concat data)" and top: "of_int m \<in> set (concat data)"
  shows "equalize m data = Inr (spec_equalize m data)"
proof -
  define a where "a = concat data"
  have rng: "\<forall>v \<in> set a. 0 \<le> v \<and> v \<le> of_int m"
    using ints unfolding a_def by fastforce
  have oe: "outer_edges a = (0, of_int m)"
    by (rule outer_edges_full [OF m rng]) (use z top in \<open>simp_all add: a_def\<close>)
  have bi: "bin_index 0 (of_int m) (m + 1) v = \<lfloor>v\<rfloor>" if "v \<in> set a" for v
  proof -
    from that ints obtain k where k: "0 \<le> k" "k \<le> m" "v = of_int k" unfolding a_def by blast
    from bin_index_integer [OF m k(1,2)] k(3) show ?thesis by simp
  qed
  have "map (\<lambda>k. length (filter (\<lambda>v. bin_index 0 (of_int m) (m + 1) v = k) a)) [0..m + 1 - 1] =
      map (\<lambda>k. length (filter (\<lambda>v. \<lfloor>v\<rfloor> = k) a)) [0..m]"
  proof (rule map_cong)
    show "[0..m + 1 - 1] = [0..m]" by simp
  next
    fix k assume "k \<in> set [0..m]"
    have "filter (\<lambda>v. bin_index 0 (of_int m) (m + 1) v = k) a = filter (\<lambda>v. \<lfloor>v\<rfloor> = k) a"
      by (rule filter_cong [OF refl]) (simp add: bi)
    then show "length (filter (\<lambda>v. bin_index 0 (of_int m) (m + 1) v = k) a) =
        length (filter (\<lambda>v. \<lfloor>v\<rfloor> = k) a)" by simp
  qed
  then have h: "np_histogram a (m + 1) = Inr (spec_histogram m a)"
    unfolding np_histogram_def oe spec_histogram_def using m by simp
  define dh where "dh = map (\<lambda>c. real c / real (length a)) (np_cumsum (spec_histogram m a))"
  have ldh: "length dh = nat (m + 1)"
    by (simp add: dh_def np_cumsum_def spec_histogram_def)
  have px: "(case py_getitem dh (py_int v) of Inl e \<Rightarrow> Inl e | Inr h \<Rightarrow> Inr (of_int m * h)) =
      Inr (of_int m * dh ! nat \<lfloor>v\<rfloor>)"
    if "v \<in> set a" for v
  proof -
    from that ints obtain k where k: "0 \<le> k" "k \<le> m" "v = of_int k" unfolding a_def by blast
    then have "py_int v = k" "\<lfloor>v\<rfloor> = k" by (simp_all add: py_int_def)
    moreover have "py_getitem dh k = Inr (dh ! nat k)"
      using k(1,2) by (simp add: py_getitem_def ldh)
    ultimately show ?thesis by simp
  qed
  have rows: "collect (map (\<lambda>v. case py_getitem dh (py_int v) of
        Inl e \<Rightarrow> Inl e | Inr h \<Rightarrow> Inr (of_int m * h)) row) =
      Inr (map (\<lambda>v. of_int m * dh ! nat \<lfloor>v\<rfloor>) row)"
    if "row \<in> set data" for row
  proof (rule collect_cong_Inr)
    fix v assume "v \<in> set row"
    with that have "v \<in> set a" unfolding a_def by auto
    then show "(case py_getitem dh (py_int v) of Inl e \<Rightarrow> Inl e | Inr h \<Rightarrow> Inr (of_int m * h)) =
      Inr (of_int m * dh ! nat \<lfloor>v\<rfloor>)" by (rule px)
  qed
  have all: "collect (map (\<lambda>row. collect (map (\<lambda>v. case py_getitem dh (py_int v) of
        Inl e \<Rightarrow> Inl e | Inr h \<Rightarrow> Inr (of_int m * h)) row)) data) =
      Inr (map (map (\<lambda>v. of_int m * dh ! nat \<lfloor>v\<rfloor>)) data)"
    by (rule collect_cong_Inr) (rule rows)
  have "equalize m data = collect (map (\<lambda>row. collect (map (\<lambda>v.
        case py_getitem dh (py_int v) of
          Inl e \<Rightarrow> Inl e | Inr h \<Rightarrow> Inr (of_int m * h)) row)) data)"
    unfolding equalize_def a_def [symmetric] h dh_def by (simp only: Let_def sum.case)
  moreover have "spec_equalize m data = map (map (\<lambda>v. of_int m * dh ! nat \<lfloor>v\<rfloor>)) data"
    unfolding spec_equalize_def a_def [symmetric] dh_def by (simp only: Let_def)
  ultimately show ?thesis using all by simp
qed

text \<open>
  C7: the code and the claim differ. The claim's histogram has one bin per integer value,
  so that \<open>cumulative_histogram[v]\<close> is the share of pixels of value at most \<open>v\<close>. The
  code's \<^verbatim>\<open>np.histogram(data, bins=int(m + 1))\<close> spreads its bins from the grid's minimum
  to its maximum, and bin \<open>v\<close> is the bin of the value \<open>v\<close> only when the clipped grid
  reaches \<open>m\<close>. On every grid with the values 0 and 1 only and \<open>m \<ge> 2\<close>, the code gives all
  pixels the same value, \<open>m\<close> times the share of the pixels of value 0, whereas the
  equalisation of the claim gives \<open>m\<close> to the pixels of value 1.
\<close>

theorem equalize_loses_levels:
  assumes "2 \<le> m"
    and "\<forall>v \<in> set (concat data). v = 0 \<or> v = 1"
    and "0 \<in> set (concat data)" and "1 \<in> set (concat data)"
  shows "equalize m data =
      Inr (map (map (\<lambda>v. of_int m *
        (real (length (filter (\<lambda>v. v = 0) (concat data))) / real (length (concat data)))))
        data) \<and>
    spec_equalize m data =
      map (map (\<lambda>v. if v = 0
        then of_int m *
          (real (length (filter (\<lambda>v. v = 0) (concat data))) / real (length (concat data)))
        else of_int m)) data \<and>
    equalize m data \<noteq> Inr (spec_equalize m data)"
proof -
  define q where
    "q = real (length (filter (\<lambda>v. v = 0) (concat data))) / real (length (concat data))"
  have e: "equalize m data = Inr (map (map (\<lambda>v. of_int m * q)) data)"
    unfolding q_def by (rule equalize_two_levels [OF assms])
  have s: "spec_equalize m data =
      map (map (\<lambda>v. if v = 0 then of_int m * q else of_int m)) data"
    unfolding q_def by (rule spec_equalize_two_levels [OF assms(1,2,4)])
  have pos: "0 < length (concat data)" using assms(4) by (cases "concat data") auto
  have "length (filter (\<lambda>v. v = 0) (concat data)) < length (concat data)"
    by (rule length_filter_less [OF assms(4)]) simp
  then have q1: "q < 1" unfolding q_def using pos by simp
  from assms(4) obtain row where row: "row \<in> set data" "1 \<in> set row" by auto
  have ne: "of_int m * q \<noteq> (of_int m :: real)" using q1 assms(1) by simp
  have "map (map (\<lambda>v. of_int m * q)) data \<noteq>
      map (map (\<lambda>v. if v = 0 then of_int m * q else of_int m)) data"
  proof
    assume "map (map (\<lambda>v. of_int m * q)) data =
      map (map (\<lambda>v. if v = 0 then of_int m * q else of_int m)) data"
    then have "map (\<lambda>v. of_int m * q) row =
        map (\<lambda>v. if v = 0 then of_int m * q else of_int m) row"
      using row(1) by (simp add: map_eq_conv)
    then have "\<forall>v \<in> set row. of_int m * q = (if v = 0 then of_int m * q else of_int m)"
      by (simp only: map_eq_conv)
    from this [rule_format, OF row(2)] ne show False by simp
  qed
  with e s show ?thesis unfolding q_def by simp
qed

text \<open>The smallest such grid, with \<open>m = 2\<close>.\<close>

theorem equalize_loses_levels_witness:
  "equalize 2 [[0, 1], [0, 0]] = Inr [[3 / 2, 3 / 2], [3 / 2, 3 / 2]] \<and>
   spec_equalize 2 [[0, 1], [0, 0]] = [[3 / 2, 2], [3 / 2, 3 / 2]]"
proof -
  have a: "(2::int) \<le> 2" by simp
  have b: "\<forall>v \<in> set (concat [[0, 1], [0, 0::real]]). v = 0 \<or> v = 1" by simp
  have c: "0 \<in> set (concat [[0, 1], [0, 0::real]])" by simp
  have d: "1 \<in> set (concat [[0, 1], [0, 0::real]])" by simp
  from equalize_loses_levels [OF a b c d] show ?thesis by simp
qed

subsection \<open>The render and its errors\<close>

text \<open>The exceptions each stage can raise.\<close>

lemma collect_error: "collect xs = Inl e \<Longrightarrow> Inl e \<in> set xs"
  by (induction xs) (auto split: sum.splits)

lemma fetch_tiles_error:
  "fetch_tiles get_tile r todo supertile = (calls, Inl e) \<Longrightarrow>
   e = FetchFailed \<or> e = ValueError"
proof (induction todo arbitrary: supertile calls)
  case Nil
  then show ?case by simp
next
  case (Cons xy rest)
  obtain x y where xy: "xy = (x, y)" by (cases xy)
  show ?case
  proof (cases "get_tile (zoom r) x y")
    case None
    with Cons.prems xy show ?thesis by simp
  next
    case (Some t)
    show ?thesis
    proof (cases "tile_block t")
      case None
      with Cons.prems xy Some show ?thesis by simp
    next
      case (Some block)
      obtain cs res where f: "fetch_tiles get_tile r rest
        (place (nat (y - y_tile_min r)) (nat (x - x_tile_min r)) block supertile) = (cs, res)"
        by (cases "fetch_tiles get_tile r rest
          (place (nat (y - y_tile_min r)) (nat (x - x_tile_min r)) block supertile)")
      with Cons.prems xy \<open>get_tile (zoom r) x y = Some t\<close> Some have "res = Inl e" by simp
      with f Cons.IH show ?thesis by blast
    qed
  qed
qed

lemma equalize_error: "equalize m data = Inl e \<Longrightarrow> e = ValueError \<or> e = IndexError"
proof -
  assume a: "equalize m data = Inl e"
  show ?thesis
  proof (cases "np_histogram (concat data) (m + 1)")
    case (Inl e')
    with a have "e' = e" by (simp add: equalize_def)
    with Inl show ?thesis by (auto simp: np_histogram_def split: if_splits prod.splits)
  next
    case (Inr hist)
    define dh where "dh = map (\<lambda>c. real c / real (length (concat data))) (np_cumsum hist)"
    from a Inr have "collect (map (\<lambda>row. collect (map (\<lambda>v.
        case py_getitem dh (py_int v) of Inl e \<Rightarrow> Inl e | Inr h \<Rightarrow> Inr (of_int m * h)) row)) data)
      = Inl e"
      unfolding equalize_def dh_def by (simp add: Let_def)
    from collect_error [OF this] obtain row where
      "collect (map (\<lambda>v. case py_getitem dh (py_int v) of
          Inl e \<Rightarrow> Inl e | Inr h \<Rightarrow> Inr (of_int m * h)) row) = Inl e"
      by auto
    from collect_error [OF this] obtain v where
      "(case py_getitem dh (py_int v) of Inl e \<Rightarrow> Inl e | Inr h \<Rightarrow> Inr (of_int m * h)) = Inl e"
      by auto
    then have "py_getitem dh (py_int v) = Inl e" by (simp split: sum.splits)
    then show ?thesis by (simp add: py_getitem_def Let_def split: if_splits)
  qed
qed

lemma gaussian_filter_error: "gaussian_filter img sigma = Inl e \<Longrightarrow> e = ValueError"
  by (simp add: gaussian_filter_def Let_def split: if_splits)

lemma normalize_error: "normalize data = Inl e \<Longrightarrow> e = ValueError"
  by (auto simp: normalize_def np_amin_def np_amax_def split: sum.splits list.splits)

lemma overlay_error:
  assumes "overlay P cmap lat_lon_data n r supertile = Inl e"
  shows "e = ValueError \<or> e = IndexError"
proof (cases "np_div (sum_list (map fst lat_lon_data)) (real (length lat_lon_data))")
  case (Float mean_lat)
  define m where "m = max_accumulation mean_lat (zoom r) n"
  define d where "d = clip m (fill_trackpoints (map (map (\<lambda>p. 0)) supertile)
    (map (to_supertile P r) lat_lon_data))"
  from assms Float have o: "(case equalize m d of
      Inl e \<Rightarrow> Inl e
    | Inr data \<Rightarrow>
        (case gaussian_filter data (of_int sigma_pixel) of
           Inl e \<Rightarrow> Inl e
         | Inr data \<Rightarrow>
             (case normalize data of
                Inl e \<Rightarrow> Inl e
              | Inr data \<Rightarrow> Inr (composite (colorize cmap data) supertile)))) = Inl e"
    unfolding overlay_def m_def d_def by (simp add: Let_def)
  show ?thesis
  proof (cases "equalize m d")
    case (Inl e1)
    with o equalize_error [OF Inl] show ?thesis by simp
  next
    case (Inr d1)
    note e = Inr
    show ?thesis
    proof (cases "gaussian_filter d1 (of_int sigma_pixel)")
      case (Inl e2)
      with o e gaussian_filter_error [OF Inl] show ?thesis by simp
    next
      case (Inr d2)
      show ?thesis
      proof (cases "normalize d2")
        case (Inl e3)
        with o e Inr normalize_error [OF Inl] show ?thesis by simp
      next
        case (Inr d3)
        with o e \<open>gaussian_filter d1 (of_int sigma_pixel) = Inr d2\<close> show ?thesis by simp
      qed
    qed
  qed
next
  case NaN
  with assms show ?thesis by (simp add: overlay_def Let_def)
next
  case PosInf
  with assms show ?thesis by (simp add: overlay_def Let_def)
next
  case NegInf
  with assms show ?thesis by (simp add: overlay_def Let_def)
qed

lemma render_tiles_error:
  assumes "snd (render_tiles P get_tile cmap lat_lon_data n r) = Inl e"
  shows "e = ValueError \<or> e = IndexError \<or> e = FetchFailed"
proof (cases "np_zeros ((y_tile_max r - y_tile_min r + 1) * OSM_TILE_SIZE)
    ((x_tile_max r - x_tile_min r + 1) * OSM_TILE_SIZE)")
  case (Inl e0)
  with assms have "e0 = e" by (simp add: render_tiles_def)
  with Inl show ?thesis by (simp add: np_zeros_def split: if_splits)
next
  case (Inr zeros)
  obtain calls res where f: "fetch_tiles get_tile r
      (List.product [x_tile_min r..x_tile_max r] [y_tile_min r..y_tile_max r]) zeros =
      (calls, res)"
    by (cases "fetch_tiles get_tile r
      (List.product [x_tile_min r..x_tile_max r] [y_tile_min r..y_tile_max r]) zeros")
  show ?thesis
  proof (cases res)
    case (Inl e1)
    with assms Inr f have "e1 = e" by (simp add: render_tiles_def)
    with f Inl fetch_tiles_error [of get_tile r _ zeros calls e] show ?thesis by auto
  next
    case (Inr supertile)
    with assms \<open>np_zeros _ _ = Inr zeros\<close> f
    have "overlay P cmap lat_lon_data n r (base_raster supertile) = Inl e"
      by (simp add: render_tiles_def)
    from overlay_error [OF this] show ?thesis by auto
  qed
qed

text \<open>
  C2. Whatever zoom is asked for, the requested one or the automatic one, the rectangle
  resolved goes through the same test: with more than 2000 tiles the render ends with the
  fatal error, no call of \<^verbatim>\<open>get_tile\<close> made and no image; with at most 2000 tiles it goes
  on to the mosaic and the later stages, and the fatal error of the tile count cannot
  arise any more.
\<close>

theorem tile_budget_checked:
  assumes "bounds lat_lon_data = Inr (lat_min, lon_min, lat_max, lon_max)"
    and "resolve P lat_min lon_min lat_max lon_max arg_zoom = Some r"
  shows "(2000 < (x_tile_max r - x_tile_min r + 1) * (y_tile_max r - y_tile_min r + 1) \<longrightarrow>
      render_heatmap P get_tile cmap lat_lon_data n arg_zoom = Some ([], Inl TooManyTiles)) \<and>
    ((x_tile_max r - x_tile_min r + 1) * (y_tile_max r - y_tile_min r + 1) \<le> 2000 \<longrightarrow>
      render_heatmap P get_tile cmap lat_lon_data n arg_zoom =
        Some (render_tiles P get_tile cmap lat_lon_data n r) \<and>
      snd (render_tiles P get_tile cmap lat_lon_data n r) \<noteq> Inl TooManyTiles)"
proof (intro conjI impI)
  assume "2000 < (x_tile_max r - x_tile_min r + 1) * (y_tile_max r - y_tile_min r + 1)"
  with assms show "render_heatmap P get_tile cmap lat_lon_data n arg_zoom =
      Some ([], Inl TooManyTiles)"
    by (simp add: render_heatmap_def tile_count_def MAX_TILE_COUNT_def)
next
  assume "(x_tile_max r - x_tile_min r + 1) * (y_tile_max r - y_tile_min r + 1) \<le> 2000"
  with assms show "render_heatmap P get_tile cmap lat_lon_data n arg_zoom =
      Some (render_tiles P get_tile cmap lat_lon_data n r)"
    by (simp add: render_heatmap_def tile_count_def MAX_TILE_COUNT_def)
next
  show "snd (render_tiles P get_tile cmap lat_lon_data n r) \<noteq> Inl TooManyTiles"
    using render_tiles_error [of P get_tile cmap lat_lon_data n r TooManyTiles] by auto
qed

text \<open>
  A square degree at the requested zoom 19 has 4245698 tiles: the render stops before
  any call. A single point in auto mode has one tile: the render calls \<^verbatim>\<open>get_tile\<close> for it
  (the tile source of the example raises).
\<close>

theorem tile_budget_checked_witness:
  "render_heatmap flat_xy (\<lambda>z x y. None) ramp [(0, 0), (1, 1)] 1 19 =
     Some ([], Inl TooManyTiles) \<and>
   render_heatmap flat_xy (\<lambda>z x y. None) ramp [(0, 0)] 1 (- 1) =
     Some ([(19, 262144, 262144)], Inl FetchFailed)"
proof -
  have b1: "bounds [(0, 0), (1, 1)] = Inr (0, 0, 1, 1)"
    by (simp add: bounds_def np_amin_def np_amax_def)
  have r1: "resolve flat_xy 0 0 1 1 19 = Some (tile_rect flat_xy 0 0 1 1 19)"
    by (simp add: resolve_def OSM_MAX_ZOOM_def)
  have c1: "(2000::int) <
    (x_tile_max (tile_rect flat_xy 0 0 1 1 19) - x_tile_min (tile_rect flat_xy 0 0 1 1 19) + 1) *
    (y_tile_max (tile_rect flat_xy 0 0 1 1 19) - y_tile_min (tile_rect flat_xy 0 0 1 1 19) + 1)"
    by code_simp
  have b2: "bounds [(0, 0)] = Inr (0, 0, 0, 0)"
    by (simp add: bounds_def np_amin_def np_amax_def)
  have t2: "tile_rect flat_xy 0 0 0 0 19 =
      \<lparr>zoom = 19, x_tile_min = 262144, x_tile_max = 262144,
        y_tile_min = 262144, y_tile_max = 262144\<rparr>"
    by code_simp
  have r2: "resolve flat_xy 0 0 0 0 (- 1) = Some (tile_rect flat_xy 0 0 0 0 19)"
    unfolding t2 by code_simp
  have c2: "(x_tile_max (tile_rect flat_xy 0 0 0 0 19) - x_tile_min (tile_rect flat_xy 0 0 0 0 19) + 1) *
    (y_tile_max (tile_rect flat_xy 0 0 0 0 19) - y_tile_min (tile_rect flat_xy 0 0 0 0 19) + 1)
    \<le> (2000::int)"
    unfolding t2 by simp
  have f2: "render_tiles flat_xy (\<lambda>z x y. None) ramp [(0, 0)] 1 (tile_rect flat_xy 0 0 0 0 19) =
      ([(19, 262144, 262144)], Inl FetchFailed)"
    unfolding t2 by (simp add: render_tiles_def np_zeros_def OSM_TILE_SIZE_def)
  from tile_budget_checked [OF b1 r1, of "\<lambda>z x y. None" ramp 1] c1
    tile_budget_checked [OF b2 r2, of "\<lambda>z x y. None" ramp 1] c2 f2
  show ?thesis by simp
qed




end
